theory Spec2Isabelle
  imports Complex_Main
begin

section \<open>Data model\<close>

text \<open>
  The tables of the Q&A application (the schema file with \<open>pgTable\<close> definitions and the SQL
  migration that creates the same tables). A table is the list of its rows. Timestamps are
  natural numbers. The \<open>updated_at\<close> columns play no part in any operation modelled here and
  are left out. The text columns of a topic hold UTF-16 code units.
\<close>

datatype item_type = Question | Answer

datatype vote_type = Upvote | Downvote

record user_row =
  u_id :: string
  u_name :: string
  u_email :: string
  u_image :: "string option"

record question_row =
  q_id :: string
  q_title :: string
  q_content :: string
  q_authorId :: string
  q_createdAt :: nat

record answer_row =
  a_id :: string
  a_content :: string
  a_questionId :: string
  a_authorId :: string
  a_createdAt :: nat

record vote_row =
  v_id :: string
  v_userId :: string
  v_itemId :: string
  v_itemType :: item_type
  v_voteType :: vote_type
  v_createdAt :: nat

record topic_row =
  t_id :: string
  t_name :: "nat list"
  t_slug :: "nat list"
  t_description :: "nat list option"

record question_topic_row =
  qt_id :: string
  qt_questionId :: string
  qt_topicId :: string

record database =
  user :: "user_row list"
  questions :: "question_row list"
  answers :: "answer_row list"
  votes :: "vote_row list"
  topics :: "topic_row list"
  questionTopics :: "question_topic_row list"

section \<open>Values that cross the HTTP boundary\<close>

text \<open>
  A thrown JavaScript value is either an \<open>Error\<close> instance, of which only the message is
  read, or something else. A field of a parsed JSON body is \<open>undefined\<close> (absent), \<open>null\<close>,
  a string, or any other JSON value. A query parameter read with \<open>searchParams.get\<close> is a
  string or \<open>null\<close>, modelled as \<open>string option\<close>.
\<close>

datatype js_error = JsError string | NonError

datatype json = JUndefined | JNull | JString string | JOther

text \<open>
  A JavaScript number as the validators read it: not a number, an infinity, or a finite
  value. The validators only compare it and test \<open>Number.isInteger\<close>, so a finite value
  is modelled by the rational it denotes.
\<close>

datatype js_number = JNaN | JInfinity | JNegInfinity | JFinite rat

datatype zod_issue = ZodIssue string string

text \<open>
  A JavaScript string is a sequence of UTF-16 code units. Identifiers, enumeration values
  and messages are only compared and are kept as \<open>string\<close>; the text fields of a topic,
  which the schema measures and transforms unit by unit, are kept as lists of code units.
\<close>

type_synonym js_string = "nat list"

datatype json_text = TUndefined | TNull | TString js_string | TOther

text \<open>
  Library behaviour that is not part of the repository is a parameter of the model:
  the conversion \<open>Number(s)\<close> of a string, the text of a validation error's \<open>message\<close>,
  the Unicode case mapping \<open>toLowerCase\<close>, and the text of the \<open>TypeError\<close> the engine
  raises when a method that an object does not have is called on it.
\<close>

record js_env =
  js_Number :: "string \<Rightarrow> js_number"
  zod_message :: "zod_issue list \<Rightarrow> string"
  js_toLowerCase :: "js_string \<Rightarrow> js_string"
  type_error_message :: "string \<Rightarrow> string \<Rightarrow> string"

record vote_counts =
  upvotes :: nat
  downvotes :: nat
  total :: int

record pagination =
  p_page :: int
  p_limit :: int
  p_total :: int
  p_totalPages :: int

datatype payload =
    VoteData "vote_row option" vote_counts "vote_type option"
  | RemoveData vote_counts "vote_type option"
  | TopicData topic_row

datatype api_response =
    ApiSuccess payload "string option" "pagination option"
  | ApiError nat string

datatype log_entry = LogApiError string | LogUnhandled js_error

fun http_status :: "api_response \<Rightarrow> nat" where
  "http_status (ApiSuccess d m p) = 200"
| "http_status (ApiError s e) = s"

section \<open>Response helpers (src/lib/api-utils.ts)\<close>

text \<open>\<open>String.prototype.includes\<close>: the second string occurs somewhere in the first.\<close>

fun str_includes :: "string \<Rightarrow> string \<Rightarrow> bool" where
  "str_includes [] sub = (sub = [])"
| "str_includes (c # cs) sub = (take (length sub) (c # cs) = sub \<or> str_includes cs sub)"

text \<open>\<open>Math.ceil(total / limit)\<close> on the exact quotient.\<close>

definition Math_ceil_div :: "int \<Rightarrow> int \<Rightarrow> int" where
  "Math_ceil_div a b = \<lceil>(of_int a :: rat) / of_int b\<rceil>"

definition createSuccessResponse ::
    "payload \<Rightarrow> string \<Rightarrow> (int \<times> int \<times> int) option \<Rightarrow> api_response" where
  "createSuccessResponse d message pag =
     ApiSuccess d (if message = [] then None else Some message)
       (case pag of
          None \<Rightarrow> None
        | Some (page, limit, tot) \<Rightarrow>
            Some \<lparr>p_page = page, p_limit = limit, p_total = tot,
                  p_totalPages = Math_ceil_div tot limit\<rparr>)"

text \<open>
  \<open>createErrorResponse\<close> writes the error to the server console and answers with the error
  text and the status. The pair is (console output, response). No modelled caller passes
  \<open>details\<close>.
\<close>

definition createErrorResponse :: "string \<Rightarrow> nat \<Rightarrow> log_entry list \<times> api_response" where
  "createErrorResponse err status = ([LogApiError err], ApiError status err)"

definition handleApiError :: "js_error \<Rightarrow> log_entry list \<times> api_response" where
  "handleApiError e =
     (let (lg, r) =
        (case e of
           JsError msg \<Rightarrow>
             if msg = ''Authentication required'' then
               createErrorResponse ''Authentication required'' 401
             else if str_includes msg ''not found'' then
               createErrorResponse ''Resource not found'' 404
             else if str_includes msg ''unauthorized'' then
               createErrorResponse ''Unauthorized'' 403
             else createErrorResponse msg 500
         | NonError \<Rightarrow> createErrorResponse ''Internal server error'' 500)
      in (LogUnhandled e # lg, r))"

definition getAuthenticatedUser :: "database \<Rightarrow> string option \<Rightarrow> user_row option" where
  "getAuthenticatedUser db session =
     (case session of
        None \<Rightarrow> None
      | Some uid \<Rightarrow> if uid = [] then None else find (\<lambda>u. u_id u = uid) (user db))"

definition requireAuth :: "database \<Rightarrow> string option \<Rightarrow> js_error + user_row" where
  "requireAuth db session =
     (case getAuthenticatedUser db session of
        None \<Rightarrow> Inl (JsError ''Authentication required'')
      | Some u \<Rightarrow> Inr u)"

definition validateRequestBody ::
    "js_env \<Rightarrow> ('r \<Rightarrow> zod_issue list + 'b) \<Rightarrow> 'r \<Rightarrow> js_error + 'b" where
  "validateRequestBody env schema raw =
     (case schema raw of
        Inl issues \<Rightarrow> Inl (JsError (zod_message env issues))
      | Inr b \<Rightarrow> Inr b)"

text \<open>SQL \<open>count(expr)\<close>: the number of rows on which the expression is not NULL.\<close>

definition sql_count :: "'a option list \<Rightarrow> nat" where
  "sql_count xs = length (filter (\<lambda>x. x \<noteq> None) xs)"

definition getItemVoteCounts :: "database \<Rightarrow> string \<Rightarrow> item_type \<Rightarrow> vote_counts" where
  "getItemVoteCounts db itemId itemType =
     (let rows = filter (\<lambda>v. v_itemId v = itemId \<and> v_itemType v = itemType) (votes db);
          up = sql_count (map (\<lambda>v. if v_voteType v = Upvote then Some (1::nat) else None) rows);
          down = sql_count (map (\<lambda>v. if v_voteType v = Downvote then Some (1::nat) else None) rows)
      in \<lparr>upvotes = up, downvotes = down, total = int up - int down\<rparr>)"

section \<open>Vote ledger (the /api/votes route)\<close>

text \<open>
  The store enforces the primary key on \<open>id\<close> and the constraint \<open>votes_user_item_unique\<close>
  on (user, item, item type): an insert that would break either one raises an error and
  changes nothing. The inserted row takes the current time as \<open>created_at\<close>.
\<close>

definition vote_key :: "vote_row \<Rightarrow> string \<times> string \<times> item_type" where
  "vote_key v = (v_userId v, v_itemId v, v_itemType v)"

definition insert_vote :: "vote_row \<Rightarrow> database \<Rightarrow> js_error + database" where
  "insert_vote r db =
     (if v_id r \<in> set (map v_id (votes db)) then
        Inl (JsError ''duplicate key value violates unique constraint votes_pkey'')
      else if vote_key r \<in> set (map vote_key (votes db)) then
        Inl (JsError ''duplicate key value violates unique constraint votes_user_item_unique'')
      else Inr (db\<lparr>votes := votes db @ [r]\<rparr>))"

definition delete_vote :: "string \<Rightarrow> database \<Rightarrow> database" where
  "delete_vote vid db = db\<lparr>votes := filter (\<lambda>v. v_id v \<noteq> vid) (votes db)\<rparr>"

text \<open>\<open>update ... set vote_type, created_at where id = ... returning\<close>: the updated rows and the new table.\<close>

definition update_vote ::
    "string \<Rightarrow> vote_type \<Rightarrow> nat \<Rightarrow> database \<Rightarrow> vote_row list \<times> database" where
  "update_vote vid vt now db =
     (let vs = map (\<lambda>v. if v_id v = vid then v\<lparr>v_voteType := vt, v_createdAt := now\<rparr> else v)
                 (votes db)
      in (filter (\<lambda>v. v_id v = vid) vs, db\<lparr>votes := vs\<rparr>))"

record vote_body =
  vb_itemId :: string
  vb_itemType :: item_type
  vb_voteType :: vote_type

record vote_body_raw =
  raw_itemId :: json
  raw_itemType :: json
  raw_voteType :: json

definition parse_itemType :: "string \<Rightarrow> item_type option" where
  "parse_itemType s =
     (if s = ''question'' then Some Question else if s = ''answer'' then Some Answer else None)"

definition parse_voteType :: "string \<Rightarrow> vote_type option" where
  "parse_voteType s =
     (if s = ''upvote'' then Some Upvote else if s = ''downvote'' then Some Downvote else None)"

fun item_type_str :: "item_type \<Rightarrow> string" where
  "item_type_str Question = ''question''"
| "item_type_str Answer = ''answer''"

text \<open>
  \<open>createVoteSchema\<close>: \<open>itemId\<close> a string of at least one character, \<open>itemType\<close> and
  \<open>voteType\<close> members of their enumerations. The issues of all fields are collected.
\<close>

definition createVoteSchema :: "vote_body_raw \<Rightarrow> zod_issue list + vote_body" where
  "createVoteSchema raw =
     (let i1 = (case raw_itemId raw of
                  JString s \<Rightarrow> if length s < 1 then [ZodIssue ''too_small'' ''itemId''] else []
                | _ \<Rightarrow> [ZodIssue ''invalid_type'' ''itemId'']);
          i2 = (case raw_itemType raw of
                  JString s \<Rightarrow> if parse_itemType s = None
                               then [ZodIssue ''invalid_enum_value'' ''itemType''] else []
                | _ \<Rightarrow> [ZodIssue ''invalid_type'' ''itemType'']);
          i3 = (case raw_voteType raw of
                  JString s \<Rightarrow> if parse_voteType s = None
                               then [ZodIssue ''invalid_enum_value'' ''voteType''] else []
                | _ \<Rightarrow> [ZodIssue ''invalid_type'' ''voteType''])
      in case (raw_itemId raw, raw_itemType raw, raw_voteType raw) of
           (JString a, JString b, JString c) \<Rightarrow>
             (case (parse_itemType b, parse_voteType c) of
                (Some k, Some d) \<Rightarrow>
                  if i1 = [] then Inr \<lparr>vb_itemId = a, vb_itemType = k, vb_voteType = d\<rparr>
                  else Inl (i1 @ i2 @ i3)
              | _ \<Rightarrow> Inl (i1 @ i2 @ i3))
         | _ \<Rightarrow> Inl (i1 @ i2 @ i3))"

text \<open>The existence check of the target: a question or an answer with that id.\<close>

definition itemExists :: "database \<Rightarrow> string \<Rightarrow> item_type \<Rightarrow> string list" where
  "itemExists db itemId itemType =
     (if itemType = Question
      then take 1 (map q_id (filter (\<lambda>q. q_id q = itemId) (questions db)))
      else take 1 (map a_id (filter (\<lambda>a. a_id a = itemId) (answers db))))"

definition existingVote :: "database \<Rightarrow> string \<Rightarrow> string \<Rightarrow> item_type \<Rightarrow> vote_row list" where
  "existingVote db userId itemId itemType =
     take 1 (filter (\<lambda>v. v_userId v = userId \<and> v_itemId v = itemId \<and> v_itemType v = itemType)
               (votes db))"

text \<open>
  \<open>POST /api/votes\<close> (castVote). \<open>newId\<close> is the result of \<open>generateId()\<close> and \<open>now\<close> the
  current time; \<open>session\<close> is the user id of the request's session, if there is one.
  The result is the response and the database after the request.
\<close>

definition POST_votes ::
    "js_env \<Rightarrow> string \<Rightarrow> nat \<Rightarrow> database \<Rightarrow> string option \<Rightarrow> vote_body_raw
       \<Rightarrow> api_response \<times> database" where
  "POST_votes env newId now db session raw =
     (case requireAuth db session of
        Inl e \<Rightarrow> (snd (handleApiError e), db)
      | Inr authenticatedUser \<Rightarrow>
     (case validateRequestBody env createVoteSchema raw of
        Inl e \<Rightarrow> (snd (handleApiError e), db)
      | Inr body \<Rightarrow>
          if itemExists db (vb_itemId body) (vb_itemType body) = [] then
            (snd (createErrorResponse (item_type_str (vb_itemType body) @ '' not found'') 404), db)
          else
            (let respond = (\<lambda>vote db'.
                   (createSuccessResponse
                      (VoteData vote
                         (getItemVoteCounts db' (vb_itemId body) (vb_itemType body))
                         (map_option v_voteType vote))
                      (if vote \<noteq> None then ''Vote recorded successfully''
                       else ''Vote removed successfully'')
                      None, db'))
             in case existingVote db (u_id authenticatedUser) (vb_itemId body) (vb_itemType body) of
                  ev # _ \<Rightarrow>
                    if v_voteType ev = vb_voteType body then
                      respond None (delete_vote (v_id ev) db)
                    else
                      (case update_vote (v_id ev) (vb_voteType body) now db of
                         (rows, db') \<Rightarrow>
                           respond (case rows of [] \<Rightarrow> None | r # _ \<Rightarrow> Some r) db')
                | [] \<Rightarrow>
                    (let row = \<lparr>v_id = newId, v_userId = u_id authenticatedUser,
                                v_itemId = vb_itemId body, v_itemType = vb_itemType body,
                                v_voteType = vb_voteType body, v_createdAt = now\<rparr>
                     in case insert_vote row db of
                          Inl e \<Rightarrow> (snd (handleApiError e), db)
                        | Inr db' \<Rightarrow> respond (Some row) db'))))"

text \<open>
  \<open>DELETE /api/votes\<close> (removeVote). \<open>itemId\<close> and \<open>itemType\<close> are the query parameters as
  \<open>searchParams.get\<close> returns them.
\<close>

definition DELETE_votes ::
    "database \<Rightarrow> string option \<Rightarrow> string option \<Rightarrow> string option \<Rightarrow> api_response \<times> database" where
  "DELETE_votes db session itemId itemType =
     (case requireAuth db session of
        Inl e \<Rightarrow> (snd (handleApiError e), db)
      | Inr authenticatedUser \<Rightarrow>
     (case (itemId, itemType) of
        (Some i, Some ts) \<Rightarrow>
          (case (if i = [] \<or> ts = [] then None else parse_itemType ts) of
             None \<Rightarrow>
               (snd (createErrorResponse
                       ''itemId and itemType (question/answer) are required'' 400), db)
           | Some k \<Rightarrow>
               if itemExists db i k = [] then
                 (snd (createErrorResponse (item_type_str k @ '' not found'') 404), db)
               else
                 (case existingVote db (u_id authenticatedUser) i k of
                    [] \<Rightarrow> (snd (createErrorResponse ''No vote found for this item'' 404), db)
                  | ev # _ \<Rightarrow>
                      (let db' = delete_vote (v_id ev) db
                       in (createSuccessResponse
                             (RemoveData (getItemVoteCounts db' i k) None)
                             ''Vote removed successfully'' None, db'))))
      | _ \<Rightarrow>
          (snd (createErrorResponse
                  ''itemId and itemType (question/answer) are required'' 400), db)))"

text \<open>A sequence of ledger operations, each with the inputs of its request.\<close>

datatype vote_op =
    CastVote string nat "string option" vote_body_raw
  | RemoveVote "string option" "string option" "string option"

fun apply_vote_op :: "js_env \<Rightarrow> database \<Rightarrow> vote_op \<Rightarrow> database" where
  "apply_vote_op env db (CastVote newId now session raw) =
     snd (POST_votes env newId now db session raw)"
| "apply_vote_op env db (RemoveVote session itemId itemType) =
     snd (DELETE_votes db session itemId itemType)"

definition run_vote_ops :: "js_env \<Rightarrow> database \<Rightarrow> vote_op list \<Rightarrow> database" where
  "run_vote_ops env db ops = foldl (apply_vote_op env) db ops"

text \<open>
  The uniqueness the votes table declares: no two rows share an id, and no two rows share
  the triple (user, item, item type).
\<close>

definition votes_unique :: "database \<Rightarrow> bool" where
  "votes_unique db \<longleftrightarrow> distinct (map v_id (votes db)) \<and> distinct (map vote_key (votes db))"

definition votes_of :: "database \<Rightarrow> string \<Rightarrow> string \<Rightarrow> item_type \<Rightarrow> vote_row list" where
  "votes_of db userId itemId itemType =
     filter (\<lambda>v. v_userId v = userId \<and> v_itemId v = itemId \<and> v_itemType v = itemType) (votes db)"

text \<open>\<open>getUserVote\<close> (src/lib/api-utils.ts): the vote a user holds on an item, if any.\<close>

definition getUserVote :: "database \<Rightarrow> string \<Rightarrow> string \<Rightarrow> item_type \<Rightarrow> vote_row option" where
  "getUserVote db userId itemId itemType =
     (case take 1 (filter (\<lambda>v. v_userId v = userId \<and> v_itemId v = itemId \<and> v_itemType v = itemType)
                     (votes db)) of
        [] \<Rightarrow> None
      | v # _ \<Rightarrow> Some v)"

text \<open>The direction a user holds on an item (\<open>userVote?.voteType || null\<close>).\<close>

definition held :: "database \<Rightarrow> string \<Rightarrow> string \<Rightarrow> item_type \<Rightarrow> vote_type option" where
  "held db u i k = map_option v_voteType (getUserVote db u i k)"

text \<open>The JSON body the vote buttons send (src/components/qa/vote-buttons.tsx).\<close>

fun vote_type_str :: "vote_type \<Rightarrow> string" where
  "vote_type_str Upvote = ''upvote''"
| "vote_type_str Downvote = ''downvote''"

definition vote_request :: "string \<Rightarrow> item_type \<Rightarrow> vote_type \<Rightarrow> vote_body_raw" where
  "vote_request i k d =
     \<lparr>raw_itemId = JString i, raw_itemType = JString (item_type_str k),
      raw_voteType = JString (vote_type_str d)\<rparr>"

section \<open>Topics (validation schema and the /api/topics route)\<close>

text \<open>The code units of a literal whose characters lie below U+0100 (one unit each).\<close>

definition utf16 :: "string \<Rightarrow> js_string" where
  "utf16 s = map of_char s"

text \<open>
  White space as \<open>trim\<close> and the regular expression class \<open>\s\<close> see it: tab, line feed,
  vertical tab, form feed, carriage return, space, no-break space, U+1680, U+2000 to U+200A,
  U+2028, U+2029, U+202F, U+205F, U+3000 and U+FEFF. Each is a single code unit.
\<close>

definition is_js_space :: "nat \<Rightarrow> bool" where
  "is_js_space u \<longleftrightarrow>
     u \<in> {9, 10, 11, 12, 13, 32, 160, 5760, 8232, 8233, 8239, 8287, 12288, 65279}
     \<or> (8192 \<le> u \<and> u \<le> 8202)"

definition js_trim :: "js_string \<Rightarrow> js_string" where
  "js_trim s = rev (dropWhile is_js_space (rev (dropWhile is_js_space s)))"

text \<open>\<open>replace(/\s+/g, '-')\<close>: every maximal run of white space becomes one hyphen (unit 45).\<close>

function replace_spaces :: "js_string \<Rightarrow> js_string" where
  "replace_spaces [] = []"
| "replace_spaces (c # cs) =
     (if is_js_space c then 45 # replace_spaces (dropWhile is_js_space cs)
      else c # replace_spaces cs)"
  by pat_completeness auto
termination
  by (relation "measure length") (auto simp: length_dropWhile_le less_Suc_eq_le)

text \<open>
  The transforms of the \<open>slug\<close> and \<open>name\<close> fields of \<open>createTopicSchema\<close>, with the
  engine's \<open>toLowerCase\<close>.
\<close>

definition slug_transform :: "js_env \<Rightarrow> js_string \<Rightarrow> js_string" where
  "slug_transform env val = replace_spaces (js_toLowerCase env (js_trim val))"

definition name_transform :: "js_env \<Rightarrow> js_string \<Rightarrow> js_string" where
  "name_transform env val = js_toLowerCase env (js_trim val)"

text \<open>
  What is used of \<open>toLowerCase\<close> (the Unicode default case conversion):
  \<^item> mapping twice is mapping once;
  \<^item> a string the mapping leaves unchanged stays unchanged when its white-space runs are
    replaced by hyphens: such a string holds no character with a lower-case mapping, the only
    context rule (final sigma) concerns a capital letter, and the replacement brings no two
    code units together that were apart;
  \<^item> on a string of ASCII and white-space code units it is the ASCII map of A to Z.
\<close>

definition ascii_lower :: "nat \<Rightarrow> nat" where
  "ascii_lower u = (if 65 \<le> u \<and> u \<le> 90 then u + 32 else u)"


record topic_body_raw =
  raw_name :: json_text
  raw_slug :: json_text
  raw_description :: json_text

record topic_body =
  tb_name :: js_string
  tb_slug :: js_string
  tb_description :: "js_string option"

definition string_issues :: "string \<Rightarrow> nat \<Rightarrow> nat \<Rightarrow> json_text \<Rightarrow> zod_issue list" where
  "string_issues path lo hi v =
     (case v of
        TString s \<Rightarrow>
          (if length s < lo then [ZodIssue ''too_small'' path] else []) @
          (if length s > hi then [ZodIssue ''too_big'' path] else [])
      | _ \<Rightarrow> [ZodIssue ''invalid_type'' path])"

definition createTopicSchema :: "js_env \<Rightarrow> topic_body_raw \<Rightarrow> zod_issue list + topic_body" where
  "createTopicSchema env raw =
     (let issues =
            string_issues ''name'' 1 50 (raw_name raw) @
            string_issues ''slug'' 1 50 (raw_slug raw) @
            (if raw_description raw = TUndefined then []
             else string_issues ''description'' 0 200 (raw_description raw))
      in case (raw_name raw, raw_slug raw) of
           (TString n, TString sl) \<Rightarrow>
             if issues = [] then
               Inr \<lparr>tb_name = name_transform env n, tb_slug = slug_transform env sl,
                    tb_description =
                      (case raw_description raw of TString d \<Rightarrow> Some d | _ \<Rightarrow> None)\<rparr>
             else Inl issues
         | _ \<Rightarrow> Inl issues)"

text \<open>
  The topics table has a primary key on \<open>id\<close> and unique constraints on \<open>name\<close> and on
  \<open>slug\<close>.
\<close>

definition insert_topic :: "topic_row \<Rightarrow> database \<Rightarrow> js_error + database" where
  "insert_topic r db =
     (if t_id r \<in> set (map t_id (topics db)) then
        Inl (JsError ''duplicate key value violates unique constraint topics_pkey'')
      else if t_name r \<in> set (map t_name (topics db)) then
        Inl (JsError ''duplicate key value violates unique constraint topics_name_unique'')
      else if t_slug r \<in> set (map t_slug (topics db)) then
        Inl (JsError ''duplicate key value violates unique constraint topics_slug_unique'')
      else Inr (db\<lparr>topics := topics db @ [r]\<rparr>))"

text \<open>
  \<open>POST /api/topics\<close>. The request carries a session or none; the handler never looks at it.
\<close>

definition POST_topics ::
    "js_env \<Rightarrow> string \<Rightarrow> database \<Rightarrow> string option \<Rightarrow> topic_body_raw
       \<Rightarrow> api_response \<times> database" where
  "POST_topics env newId db session raw =
     (case validateRequestBody env (createTopicSchema env) raw of
        Inl e \<Rightarrow> (snd (handleApiError e), db)
      | Inr body \<Rightarrow>
          (let existingTopic =
                 take 1 (filter (\<lambda>t. t_name t = tb_name body \<or> t_slug t = tb_slug body)
                           (topics db))
           in if length existingTopic > 0 then
                (snd (createErrorResponse ''Topic with this name or slug already exists'' 409),
                 db)
              else
                (let newTopic =
                       \<lparr>t_id = newId, t_name = tb_name body, t_slug = tb_slug body,
                        t_description =
                          (case tb_description body of
                             None \<Rightarrow> None
                           | Some d \<Rightarrow> if d = [] then None else Some d)\<rparr>
                 in case insert_topic newTopic db of
                      Inl e \<Rightarrow> (snd (handleApiError e), db)
                    | Inr db' \<Rightarrow>
                        (createSuccessResponse (TopicData newTopic)
                           ''Topic created successfully'' None, db'))))"

section \<open>Question listing (validation schema and the /api/questions route)\<close>

datatype sort_order = Recent | MostVoted

record questions_query_raw =
  rq_page :: "string option"
  rq_limit :: "string option"
  rq_sort :: "string option"
  rq_topic :: "string option"

record questions_query =
  qq_page :: int
  qq_limit :: int
  qq_sort :: sort_order
  qq_topic :: "string option"

text \<open>
  \<open>z.coerce.number()\<close> applies \<open>Number\<close> to its input; \<open>Number(null)\<close> is 0. The default of
  a field applies to \<open>undefined\<close> only, which \<open>searchParams.get\<close> never returns.
\<close>

definition coerce_number :: "js_env \<Rightarrow> string option \<Rightarrow> js_number" where
  "coerce_number env p = (case p of None \<Rightarrow> JFinite 0 | Some s \<Rightarrow> js_Number env s)"

definition is_integer :: "rat \<Rightarrow> bool" where
  "is_integer r \<longleftrightarrow> of_int \<lfloor>r\<rfloor> = r"

text \<open>
  The checks \<open>.int().positive()\<close> and, with a bound, \<open>.max(bound)\<close> on a coerced number;
  the issues of all checks are collected.
\<close>

definition number_issues :: "string \<Rightarrow> rat option \<Rightarrow> js_number \<Rightarrow> zod_issue list" where
  "number_issues path bound n =
     (case n of
        JNaN \<Rightarrow> [ZodIssue ''invalid_type'' path]
      | JInfinity \<Rightarrow>
          ZodIssue ''invalid_type'' path #
          (if bound = None then [] else [ZodIssue ''too_big'' path])
      | JNegInfinity \<Rightarrow> [ZodIssue ''invalid_type'' path, ZodIssue ''too_small'' path]
      | JFinite r \<Rightarrow>
          (if is_integer r then [] else [ZodIssue ''invalid_type'' path]) @
          (if r \<le> 0 then [ZodIssue ''too_small'' path] else []) @
          (case bound of
             None \<Rightarrow> []
           | Some b \<Rightarrow> if r > b then [ZodIssue ''too_big'' path] else []))"

definition parse_sort :: "string \<Rightarrow> sort_order option" where
  "parse_sort s =
     (if s = ''recent'' then Some Recent
      else if s = ''most_voted'' then Some MostVoted else None)"

definition questionsQuerySchema ::
    "js_env \<Rightarrow> questions_query_raw \<Rightarrow> zod_issue list + questions_query" where
  "questionsQuerySchema env raw =
     (let page = coerce_number env (rq_page raw);
          limit = coerce_number env (rq_limit raw);
          issues =
            number_issues ''page'' None page @
            number_issues ''limit'' (Some 50) limit @
            (case rq_sort raw of
               None \<Rightarrow> [ZodIssue ''invalid_type'' ''sort'']
             | Some s \<Rightarrow>
                 if parse_sort s = None then [ZodIssue ''invalid_enum_value'' ''sort'']
                 else []) @
            (case rq_topic raw of
               None \<Rightarrow> [ZodIssue ''invalid_type'' ''topic'']
             | Some t \<Rightarrow> [])
      in case (page, limit, rq_sort raw) of
           (JFinite p, JFinite l, Some s) \<Rightarrow>
             (case parse_sort s of
                Some so \<Rightarrow>
                  if issues = [] then
                    Inr \<lparr>qq_page = \<lfloor>p\<rfloor>, qq_limit = \<lfloor>l\<rfloor>, qq_sort = so,
                         qq_topic = rq_topic raw\<rparr>
                  else Inl issues
              | None \<Rightarrow> Inl issues)
         | _ \<Rightarrow> Inl issues)"

text \<open>
  The rest of \<open>GET /api/questions\<close> after validation. The handler computes limit and offset
  and then builds its query, whose joins are written \<open>votes.as("v")\<close> and \<open>topics.as("t")\<close>.
  A drizzle table object has no method \<open>as\<close> (a table is aliased with the function
  \<open>alias\<close>), so the call on \<open>votes\<close>, the first to be evaluated, raises a \<open>TypeError\<close> inside
  the \<open>try\<close> block before any query is sent: the filter, the ordering, the page and the
  count query are never reached, and the \<open>catch\<close> block hands the error to
  \<open>handleApiError\<close>.
\<close>

definition table_as :: "js_env \<Rightarrow> string \<Rightarrow> js_error" where
  "table_as env table = JsError (type_error_message env table ''as'')"

definition listQuestions :: "js_env \<Rightarrow> database \<Rightarrow> questions_query \<Rightarrow> api_response" where
  "listQuestions env db query = snd (handleApiError (table_as env ''votes''))"

definition GET_questions :: "js_env \<Rightarrow> database \<Rightarrow> questions_query_raw \<Rightarrow> api_response" where
  "GET_questions env db raw =
     (case questionsQuerySchema env raw of
        Inl issues \<Rightarrow> snd (handleApiError (JsError (zod_message env issues)))
      | Inr query \<Rightarrow> listQuestions env db query)"

section \<open>A concrete database and environment\<close>

text \<open>
  Two users, one question tagged with the first topic of the seed file
  (src/drizzle/seed.sql: name \<open>Technology\<close>, slug \<open>technology\<close>), and one upvote of the
  first user on the question.
\<close>

definition example_db :: database where
  "example_db =
     \<lparr>user = [\<lparr>u_id = ''u1'', u_name = ''Alice'', u_email = ''alice@example.com'', u_image = None\<rparr>,
              \<lparr>u_id = ''u2'', u_name = ''Bob'', u_email = ''bob@example.com'', u_image = None\<rparr>],
      questions = [\<lparr>q_id = ''q1'', q_title = ''What is a monad?'',
                    q_content = ''Please explain it simply.'', q_authorId = ''u1'',
                    q_createdAt = 1\<rparr>],
      answers = [],
      votes = [\<lparr>v_id = ''v1'', v_userId = ''u1'', v_itemId = ''q1'', v_itemType = Question,
                v_voteType = Upvote, v_createdAt = 2\<rparr>],
      topics = [\<lparr>t_id = ''topic-1'', t_name = utf16 ''Technology'', t_slug = utf16 ''technology'',
                 t_description = Some (utf16 ''Discussions about technology'')\<rparr>],
      questionTopics = [\<lparr>qt_id = ''qt1'', qt_questionId = ''q1'', qt_topicId = ''topic-1''\<rparr>]\<rparr>"

text \<open>
  An environment for concrete requests: \<open>Number\<close> on strings of decimal digits and
  \<open>toLowerCase\<close> on ASCII text, which is all the concrete requests below contain, a fixed
  validation message, and the wording V8 gives a call of a missing method.
\<close>

fun digits_value :: "int \<Rightarrow> string \<Rightarrow> int option" where
  "digits_value acc [] = Some acc"
| "digits_value acc (c # cs) =
     (if (48::nat) \<le> of_char c \<and> (of_char c :: nat) \<le> 57
      then digits_value (acc * 10 + (of_char c - 48)) cs
      else None)"

definition decimal_Number :: "string \<Rightarrow> js_number" where
  "decimal_Number s = (case digits_value 0 s of None \<Rightarrow> JNaN | Some n \<Rightarrow> JFinite (of_int n))"

definition example_env :: js_env where
  "example_env =
     \<lparr>js_Number = decimal_Number,
      zod_message = (\<lambda>issues. ''[validation issues]''),
      js_toLowerCase = map ascii_lower,
      type_error_message = (\<lambda>obj m. obj @ ''.'' @ m @ '' is not a function'')\<rparr>"

section \<open>Aggregation\<close>

lemma sql_count_case:
  "sql_count (map (\<lambda>v. if P v then Some (1::nat) else None) rows) = length (filter P rows)"
  by (induction rows) (simp_all add: sql_count_def)

text \<open>
  C3. For every target and every state of the votes table, the counts operation returns as
  upvotes the number of vote rows of that target with direction upvote, as downvotes the
  number with direction downvote, and as net value upvotes minus downvotes. It reads nothing
  but the votes table.
\<close>

theorem getItemVoteCounts_accurate:
  "upvotes (getItemVoteCounts db i k) =
     length (filter (\<lambda>v. v_itemId v = i \<and> v_itemType v = k \<and> v_voteType v = Upvote) (votes db))
   \<and> downvotes (getItemVoteCounts db i k) =
     length (filter (\<lambda>v. v_itemId v = i \<and> v_itemType v = k \<and> v_voteType v = Downvote) (votes db))
   \<and> total (getItemVoteCounts db i k) =
     int (upvotes (getItemVoteCounts db i k)) - int (downvotes (getItemVoteCounts db i k))
   \<and> getItemVoteCounts (db\<lparr>user := us, questions := qs, answers := as, topics := ts,
                            questionTopics := qts\<rparr>) i k = getItemVoteCounts db i k"
  by (simp add: getItemVoteCounts_def Let_def sql_count_case conj_commute conj_left_commute)

section \<open>Vote ledger: uniqueness, removal, toggle and switch\<close>

lemma createVoteSchema_vote_request:
  "i \<noteq> [] \<Longrightarrow> createVoteSchema (vote_request i k d) =
     Inr \<lparr>vb_itemId = i, vb_itemType = k, vb_voteType = d\<rparr>"
  by (cases k; cases d)
     (simp_all add: createVoteSchema_def vote_request_def parse_itemType_def
        parse_voteType_def)

lemma existingVote_votes_of: "existingVote db u i k = take 1 (votes_of db u i k)"
  by (simp add: existingVote_def votes_of_def)

lemma filter_key_le1:
  "distinct (map f xs) \<Longrightarrow> length (filter (\<lambda>x. f x = a) xs) \<le> 1"
  by (induction xs) (auto simp: filter_empty_conv image_iff)

lemma votes_of_key: "votes_of db u i k = filter (\<lambda>v. vote_key v = (u, i, k)) (votes db)"
  by (simp add: votes_of_def vote_key_def)

lemma votes_of_le1: "votes_unique db \<Longrightarrow> length (votes_of db u i k) \<le> 1"
  using filter_key_le1[of vote_key "votes db" "(u, i, k)"]
  by (simp add: votes_of_key votes_unique_def)

lemma POST_votes_valid:
  assumes "getAuthenticatedUser db session = Some usr" "i \<noteq> []" "itemExists db i k \<noteq> []"
  shows "POST_votes env newId now db session (vote_request i k d) =
     (let respond = (\<lambda>vote db'.
                   (ApiSuccess
                      (VoteData vote (getItemVoteCounts db' i k) (map_option v_voteType vote))
                      (Some (if vote \<noteq> None then ''Vote recorded successfully''
                       else ''Vote removed successfully''))
                      None, db'))
             in case take 1 (votes_of db (u_id usr) i k) of
                  ev # _ \<Rightarrow>
                    if v_voteType ev = d then
                      respond None (delete_vote (v_id ev) db)
                    else
                      (case update_vote (v_id ev) d now db of
                         (rows, db') \<Rightarrow>
                           respond (case rows of [] \<Rightarrow> None | r # _ \<Rightarrow> Some r) db')
                | [] \<Rightarrow>
                    (let row = \<lparr>v_id = newId, v_userId = u_id usr,
                                v_itemId = i, v_itemType = k,
                                v_voteType = d, v_createdAt = now\<rparr>
                     in case insert_vote row db of
                          Inl e \<Rightarrow> (snd (handleApiError e), db)
                        | Inr db' \<Rightarrow> respond (Some row) db'))"
  using assms
  by (simp add: POST_votes_def requireAuth_def validateRequestBody_def
        createVoteSchema_vote_request existingVote_votes_of createSuccessResponse_def Let_def
        split: list.splits sum.splits prod.splits)

lemma votes_unique_delete: "votes_unique db \<Longrightarrow> votes_unique (delete_vote vid db)"
  by (simp add: votes_unique_def delete_vote_def distinct_map_filter)

lemma votes_unique_update: "votes_unique db \<Longrightarrow> votes_unique (snd (update_vote vid d now db))"
proof -
  let ?g = "\<lambda>v. if v_id v = vid then v\<lparr>v_voteType := d, v_createdAt := now\<rparr> else v"
  have "map v_id (map ?g (votes db)) = map v_id (votes db)" by (induction "votes db") auto
  moreover have "map vote_key (map ?g (votes db)) = map vote_key (votes db)"
    by (simp add: vote_key_def)
  ultimately show "votes_unique db \<Longrightarrow> ?thesis"
    by (simp add: votes_unique_def update_vote_def Let_def del: map_map)
qed

lemma votes_unique_insert:
  "votes_unique db \<Longrightarrow> insert_vote r db = Inr db' \<Longrightarrow> votes_unique db'"
  by (auto simp: votes_unique_def insert_vote_def split: if_splits)

lemma votes_unique_update_pair:
  "votes_unique db \<Longrightarrow> update_vote vid d now db = (rows, db') \<Longrightarrow> votes_unique db'"
  using votes_unique_update[of db vid d now] by simp

lemma POST_votes_unique:
  "votes_unique db \<Longrightarrow> votes_unique (snd (POST_votes env newId now db session raw))"
  by (auto simp: POST_votes_def Let_def votes_unique_delete
      split: sum.splits list.splits prod.splits
      dest: votes_unique_insert votes_unique_update_pair)

lemma DELETE_votes_unique:
  "votes_unique db \<Longrightarrow> votes_unique (snd (DELETE_votes db session itemId itemType))"
  by (auto simp: DELETE_votes_def Let_def votes_unique_delete
      split: sum.splits list.splits prod.splits option.splits)

lemma run_vote_ops_unique:
  "votes_unique db \<Longrightarrow> votes_unique (run_vote_ops env db ops)"
  unfolding run_vote_ops_def
proof (induction ops arbitrary: db)
  case Nil
  then show ?case by simp
next
  case (Cons op ops)
  have "votes_unique (apply_vote_op env db op)"
    using Cons.prems by (cases op) (simp_all add: POST_votes_unique DELETE_votes_unique)
  then show ?case using Cons.IH by simp
qed

lemma votes_of_singleton:
  assumes "votes_unique db" "votes_of db u i k = ev # rest"
  shows "rest = []"
  using votes_of_le1[OF assms(1), of u i k] assms(2) by simp

lemma filter_id_remove1:
  "distinct (map f xs) \<Longrightarrow> x \<in> set xs \<Longrightarrow> filter (\<lambda>y. f y \<noteq> f x) xs = remove1 x xs"
proof (induction xs)
  case Nil
  then show ?case by simp
next
  case (Cons a xs)
  show ?case
  proof (cases "a = x")
    case True
    have "\<forall>y\<in>set xs. f y \<noteq> f x" using Cons.prems(1) True by (auto simp: image_iff)
    then have "filter (\<lambda>y. f y \<noteq> f x) xs = xs" by (simp add: filter_True)
    then show ?thesis using True by simp
  next
    case False
    then have "x \<in> set xs" using Cons.prems(2) by simp
    moreover from this have "f a \<noteq> f x" using Cons.prems(1) by (auto simp: image_iff)
    ultimately show ?thesis using Cons False by simp
  qed
qed

lemma votes_of_delete:
  assumes inv: "votes_unique db" and ev: "votes_of db u i k = ev # rest"
  shows "votes_of (delete_vote (v_id ev) db) u i k = []"
proof -
  have r: "rest = []" using votes_of_singleton[OF inv ev] .
  have "votes_of (delete_vote (v_id ev) db) u i k =
        filter (\<lambda>v. v_id v \<noteq> v_id ev) (votes_of db u i k)"
    by (simp add: votes_of_def delete_vote_def conj_commute)
  then show ?thesis using ev r by simp
qed

lemma delete_vote_remove1:
  assumes inv: "votes_unique db" and ev: "votes_of db u i k = ev # rest"
  shows "votes (delete_vote (v_id ev) db) = remove1 ev (votes db)"
proof -
  have "ev \<in> set (votes_of db u i k)" using ev by simp
  then have "ev \<in> set (votes db)" by (simp add: votes_of_def)
  then show ?thesis using inv
    by (simp add: delete_vote_def votes_unique_def filter_id_remove1)
qed

lemma DELETE_votes_valid:
  assumes "getAuthenticatedUser db session = Some usr" "i \<noteq> []" "itemExists db i k \<noteq> []"
  shows "DELETE_votes db session (Some i) (Some (item_type_str k)) =
     (case take 1 (votes_of db (u_id usr) i k) of
        [] \<Rightarrow> (ApiError 404 ''No vote found for this item'', db)
      | ev # _ \<Rightarrow>
          (ApiSuccess (RemoveData (getItemVoteCounts (delete_vote (v_id ev) db) i k) None)
             (Some ''Vote removed successfully'') None, delete_vote (v_id ev) db))"
  using assms
  by (cases k)
     (simp_all add: DELETE_votes_def requireAuth_def parse_itemType_def
        existingVote_votes_of createSuccessResponse_def createErrorResponse_def Let_def
        split: list.splits)

text \<open>
  C4. For an authenticated voter and an existing target: when the voter holds no vote on the
  target, removeVote answers 404 with the text "No vote found for this item" and leaves the
  database as it was; when a vote is present, exactly that row is deleted, no vote of the
  voter on the target remains, and the response carries the tallies recomputed on the new
  state with a null user vote direction.
\<close>

theorem removeVote_absent_is_error:
  assumes auth: "getAuthenticatedUser db session = Some usr"
      and nonempty: "i \<noteq> []"
      and ex: "itemExists db i k \<noteq> []"
      and inv: "votes_unique db"
  shows "(votes_of db (u_id usr) i k = [] \<longrightarrow>
            DELETE_votes db session (Some i) (Some (item_type_str k)) =
              (ApiError 404 ''No vote found for this item'', db))
       \<and> (\<forall>ev. ev \<in> set (votes_of db (u_id usr) i k) \<longrightarrow>
            (\<exists>db'. DELETE_votes db session (Some i) (Some (item_type_str k)) =
                    (ApiSuccess (RemoveData (getItemVoteCounts db' i k) None)
                       (Some ''Vote removed successfully'') None, db')
                  \<and> db' = db\<lparr>votes := remove1 ev (votes db)\<rparr>
                  \<and> votes_of db' (u_id usr) i k = []))"
proof (intro conjI impI allI)
  assume "votes_of db (u_id usr) i k = []"
  then show "DELETE_votes db session (Some i) (Some (item_type_str k)) =
              (ApiError 404 ''No vote found for this item'', db)"
    by (simp add: DELETE_votes_valid[OF auth nonempty ex])
next
  fix ev assume "ev \<in> set (votes_of db (u_id usr) i k)"
  then obtain x rest where xr: "votes_of db (u_id usr) i k = x # rest"
    by (cases "votes_of db (u_id usr) i k") auto
  have "rest = []" using votes_of_singleton[OF inv xr] .
  with xr \<open>ev \<in> set (votes_of db (u_id usr) i k)\<close> have x: "x = ev" by simp
  have d: "delete_vote (v_id ev) db = db\<lparr>votes := remove1 ev (votes db)\<rparr>"
    using delete_vote_remove1[OF inv xr] x by (simp add: delete_vote_def)
  have e: "votes_of (delete_vote (v_id ev) db) (u_id usr) i k = []"
    using votes_of_delete[OF inv xr] x by simp
  show "\<exists>db'. DELETE_votes db session (Some i) (Some (item_type_str k)) =
                    (ApiSuccess (RemoveData (getItemVoteCounts db' i k) None)
                       (Some ''Vote removed successfully'') None, db')
                  \<and> db' = db\<lparr>votes := remove1 ev (votes db)\<rparr>
                  \<and> votes_of db' (u_id usr) i k = []"
    using xr x d e by (simp add: DELETE_votes_valid[OF auth nonempty ex])
qed

lemma in_votes_of: "ev \<in> set (votes_of db u i k) \<Longrightarrow>
   ev \<in> set (votes db) \<and> v_userId ev = u \<and> v_itemId ev = i \<and> v_itemType ev = k"
  by (simp add: votes_of_def)

lemma votes_of_eq_single:
  assumes inv: "votes_unique db" and ev: "ev \<in> set (votes_of db u i k)"
  shows "votes_of db u i k = [ev]"
proof -
  obtain x rest where xr: "votes_of db u i k = x # rest"
    using ev by (cases "votes_of db u i k") auto
  have "rest = []" using votes_of_singleton[OF inv xr] .
  with xr ev show ?thesis by simp
qed

lemma id_eq_iff:
  assumes "distinct (map f xs)" "x \<in> set xs" "y \<in> set xs"
  shows "f y = f x \<longleftrightarrow> y = x"
  using assms by (meson distinct_map inj_on_eq_iff)

lemma filter_updated:
  "filter (\<lambda>v. v_id v = a)
     (map (\<lambda>v. if v_id v = a then v\<lparr>v_voteType := d, v_createdAt := now\<rparr> else v) xs) =
   map (\<lambda>v. v\<lparr>v_voteType := d, v_createdAt := now\<rparr>) (filter (\<lambda>v. v_id v = a) xs)"
  by (induction xs) auto

lemma filter_id_single:
  assumes "distinct (map f xs)" "x \<in> set xs"
  shows "filter (\<lambda>y. f y = f x) xs = [x]"
  using assms
proof (induction xs)
  case Nil
  then show ?case by simp
next
  case (Cons a xs)
  show ?case
  proof (cases "a = x")
    case True
    have "\<forall>y\<in>set xs. f y \<noteq> f x" using Cons.prems(1) True by (auto simp: image_iff)
    then have "filter (\<lambda>y. f y = f x) xs = []" by (simp add: filter_empty_conv)
    then show ?thesis using True by simp
  next
    case False
    then have "x \<in> set xs" using Cons.prems(2) by simp
    moreover from this have "f a \<noteq> f x" using Cons.prems(1) by (auto simp: image_iff)
    ultimately show ?thesis using Cons False by simp
  qed
qed

lemma update_vote_eq:
  assumes inv: "votes_unique db" and ev: "ev \<in> set (votes db)"
  shows "update_vote (v_id ev) d now db =
     ([ev\<lparr>v_voteType := d, v_createdAt := now\<rparr>],
      db\<lparr>votes := map (\<lambda>v. if v = ev then ev\<lparr>v_voteType := d, v_createdAt := now\<rparr> else v)
                     (votes db)\<rparr>)"
proof -
  let ?ev' = "ev\<lparr>v_voteType := d, v_createdAt := now\<rparr>"
  let ?g = "\<lambda>v. if v_id v = v_id ev then v\<lparr>v_voteType := d, v_createdAt := now\<rparr> else v"
  let ?h = "\<lambda>v. if v = ev then ?ev' else v"
  have dist: "distinct (map v_id (votes db))" using inv by (simp add: votes_unique_def)
  have iff: "\<And>v. v \<in> set (votes db) \<Longrightarrow> v_id v = v_id ev \<longleftrightarrow> v = ev"
    using id_eq_iff[OF dist ev] by blast
  have m: "map ?g (votes db) = map ?h (votes db)"
    by (rule map_cong) (auto simp: iff)
  have f: "filter (\<lambda>v. v_id v = v_id ev) (map ?g (votes db)) = [?ev']"
    by (simp only: filter_updated filter_id_single[OF dist ev]) simp
  show ?thesis unfolding update_vote_def Let_def f using m by simp
qed

lemma votes_of_update:
  assumes inv: "votes_unique db" and ev: "ev \<in> set (votes_of db u i k)"
  shows "votes_of (db\<lparr>votes := map (\<lambda>v. if v = ev then ev\<lparr>v_voteType := d, v_createdAt := now\<rparr> else v)
                     (votes db)\<rparr>) u i k = [ev\<lparr>v_voteType := d, v_createdAt := now\<rparr>]"
proof -
  let ?h = "\<lambda>v. if v = ev then ev\<lparr>v_voteType := d, v_createdAt := now\<rparr> else v"
  let ?P = "\<lambda>v. v_userId v = u \<and> v_itemId v = i \<and> v_itemType v = k"
  have P: "?P ev" using in_votes_of[OF ev] by simp
  have "\<And>v. ?P (?h v) = ?P v" using P by simp
  then have "filter ?P (map ?h (votes db)) = map ?h (filter ?P (votes db))"
    by (simp add: filter_map comp_def)
  also have "filter ?P (votes db) = [ev]"
    using votes_of_eq_single[OF inv ev] by (simp add: votes_of_def)
  finally show ?thesis by (simp add: votes_of_def)
qed

lemma votes_of_insert:
  assumes "votes_of db u i k = []"
  shows "votes_of (db\<lparr>votes := votes db @ [\<lparr>v_id = n, v_userId = u, v_itemId = i, v_itemType = k,
              v_voteType = d, v_createdAt = now\<rparr>]\<rparr>) u i k =
         [\<lparr>v_id = n, v_userId = u, v_itemId = i, v_itemType = k,
              v_voteType = d, v_createdAt = now\<rparr>]"
  using assms by (simp add: votes_of_def)

lemma insert_vote_fresh:
  assumes "votes_of db u i k = []" "n \<notin> set (map v_id (votes db))"
  shows "insert_vote \<lparr>v_id = n, v_userId = u, v_itemId = i, v_itemType = k,
              v_voteType = d, v_createdAt = now\<rparr> db =
         Inr (db\<lparr>votes := votes db @ [\<lparr>v_id = n, v_userId = u, v_itemId = i, v_itemType = k,
              v_voteType = d, v_createdAt = now\<rparr>]\<rparr>)"
proof -
  have "(u, i, k) \<notin> set (map vote_key (votes db))"
    using assms(1) by (auto simp: votes_of_def vote_key_def filter_empty_conv)
  then show ?thesis using assms(2) by (simp add: insert_vote_def vote_key_def)
qed

lemma same_tables:
  assumes "user db1 = user db" "questions db1 = questions db" "answers db1 = answers db"
  shows "getAuthenticatedUser db1 session = getAuthenticatedUser db session"
    and "itemExists db1 i k = itemExists db i k"
  using assms by (simp_all add: getAuthenticatedUser_def itemExists_def split: option.splits)

lemma castVote_insert:
  assumes auth: "getAuthenticatedUser db session = Some usr"
      and nonempty: "i \<noteq> []"
      and ex: "itemExists db i k \<noteq> []"
      and none: "votes_of db (u_id usr) i k = []"
      and fresh: "newId \<notin> set (map v_id (votes db))"
  shows "POST_votes env newId now db session (vote_request i k d) =
      (let row = \<lparr>v_id = newId, v_userId = u_id usr, v_itemId = i, v_itemType = k,
                    v_voteType = d, v_createdAt = now\<rparr>;
           db1 = db\<lparr>votes := votes db @ [row]\<rparr>
       in (ApiSuccess (VoteData (Some row) (getItemVoteCounts db1 i k) (Some d))
             (Some ''Vote recorded successfully'') None, db1))"
  using none insert_vote_fresh[OF none fresh]
  by (simp add: POST_votes_valid[OF auth nonempty ex] Let_def)

lemma castVote_toggle_off:
  assumes auth: "getAuthenticatedUser db session = Some usr"
      and nonempty: "i \<noteq> []"
      and ex: "itemExists db i k \<noteq> []"
      and inv: "votes_unique db"
      and ev: "ev \<in> set (votes_of db (u_id usr) i k)"
      and same: "v_voteType ev = d"
  shows "POST_votes env newId now db session (vote_request i k d) =
      (let db1 = db\<lparr>votes := remove1 ev (votes db)\<rparr>
       in (ApiSuccess (VoteData None (getItemVoteCounts db1 i k) None)
             (Some ''Vote removed successfully'') None, db1))"
proof -
  have s: "votes_of db (u_id usr) i k = [ev]" using votes_of_eq_single[OF inv ev] .
  have d: "delete_vote (v_id ev) db = db\<lparr>votes := remove1 ev (votes db)\<rparr>"
    using delete_vote_remove1[OF inv s] by (simp add: delete_vote_def)
  show ?thesis using s same d
    by (simp add: POST_votes_valid[OF auth nonempty ex] Let_def)
qed

lemma castVote_switch:
  assumes auth: "getAuthenticatedUser db session = Some usr"
      and nonempty: "i \<noteq> []"
      and ex: "itemExists db i k \<noteq> []"
      and inv: "votes_unique db"
      and ev: "ev \<in> set (votes_of db (u_id usr) i k)"
      and diff: "v_voteType ev \<noteq> d"
  shows "POST_votes env newId now db session (vote_request i k d) =
      (let ev' = ev\<lparr>v_voteType := d, v_createdAt := now\<rparr>;
           db1 = db\<lparr>votes := map (\<lambda>v. if v = ev then ev' else v) (votes db)\<rparr>
       in (ApiSuccess (VoteData (Some ev') (getItemVoteCounts db1 i k) (Some d))
             (Some ''Vote recorded successfully'') None, db1))"
proof -
  have s: "votes_of db (u_id usr) i k = [ev]" using votes_of_eq_single[OF inv ev] .
  have m: "ev \<in> set (votes db)" using in_votes_of[OF ev] by simp
  show ?thesis using s diff
    by (simp add: POST_votes_valid[OF auth nonempty ex] update_vote_eq[OF inv m] Let_def)
qed

lemma held_votes_of:
  "held db u i k = (case votes_of db u i k of [] \<Rightarrow> None | v # _ \<Rightarrow> Some (v_voteType v))"
  by (simp add: held_def getUserVote_def votes_of_def split: list.splits)

lemma castVote_step:
  assumes auth: "getAuthenticatedUser db session = Some usr"
      and nonempty: "i \<noteq> []"
      and ex: "itemExists db i k \<noteq> []"
      and inv: "votes_unique db"
      and fresh: "newId \<notin> set (map v_id (votes db))"
  shows "\<exists>r db1. POST_votes env newId now db session (vote_request i k d) = (r, db1)
      \<and> votes_unique db1
      \<and> getAuthenticatedUser db1 session = Some usr
      \<and> itemExists db1 i k \<noteq> []
      \<and> set (map v_id (votes db1)) \<subseteq> insert newId (set (map v_id (votes db)))
      \<and> held db1 (u_id usr) i k = (if held db (u_id usr) i k = Some d then None else Some d)
      \<and> length (votes_of db1 (u_id usr) i k) = (if held db (u_id usr) i k = Some d then 0 else 1)"
proof (cases "votes_of db (u_id usr) i k")
  case Nil
  let ?row = "\<lparr>v_id = newId, v_userId = u_id usr, v_itemId = i, v_itemType = k,
                    v_voteType = d, v_createdAt = now\<rparr>"
  let ?db1 = "db\<lparr>votes := votes db @ [?row]\<rparr>"
  have u: "votes_unique ?db1"
    using votes_unique_insert[OF inv insert_vote_fresh[OF Nil fresh]] .
  have h0: "held db (u_id usr) i k = None" using Nil by (simp add: held_votes_of)
  have v1: "votes_of ?db1 (u_id usr) i k = [?row]" using votes_of_insert[OF Nil] .
  have h1: "held ?db1 (u_id usr) i k = Some d" unfolding held_votes_of v1 by simp
  show ?thesis
    using castVote_insert[OF auth nonempty ex Nil fresh, where env=env and now=now and d=d] u h0 h1 v1 auth ex
      same_tables[of ?db1 db]
    by (auto simp: Let_def)
next
  case (Cons ev rest)
  then have ev: "ev \<in> set (votes_of db (u_id usr) i k)" by simp
  have s: "votes_of db (u_id usr) i k = [ev]" using votes_of_eq_single[OF inv ev] .
  have h0: "held db (u_id usr) i k = Some (v_voteType ev)" using s by (simp add: held_votes_of)
  show ?thesis
  proof (cases "v_voteType ev = d")
    case True
    let ?db1 = "db\<lparr>votes := remove1 ev (votes db)\<rparr>"
    have d: "delete_vote (v_id ev) db = ?db1"
      using delete_vote_remove1[OF inv s] by (simp add: delete_vote_def)
    have u: "votes_unique ?db1" using votes_unique_delete[OF inv, where vid="v_id ev"] d by simp
    have v1: "votes_of ?db1 (u_id usr) i k = []" using votes_of_delete[OF inv s] d by simp
    have h1: "held ?db1 (u_id usr) i k = None" unfolding held_votes_of v1 by simp
    have sub: "set (map v_id (votes ?db1)) \<subseteq> set (map v_id (votes db))"
      using set_remove1_subset[of ev "votes db"] by auto
    show ?thesis
      using castVote_toggle_off[OF auth nonempty ex inv ev True, where env=env and newId=newId and now=now] u h0 h1 v1
        auth ex same_tables[of ?db1 db] True sub
      by (auto simp: Let_def)
  next
    case False
    let ?ev' = "ev\<lparr>v_voteType := d, v_createdAt := now\<rparr>"
    let ?db1 = "db\<lparr>votes := map (\<lambda>v. if v = ev then ?ev' else v) (votes db)\<rparr>"
    have m: "ev \<in> set (votes db)" using in_votes_of[OF ev] by simp
    have d: "snd (update_vote (v_id ev) d now db) = ?db1"
      using update_vote_eq[OF inv m] by simp
    have u: "votes_unique ?db1" using votes_unique_update[OF inv, where vid="v_id ev" and d=d and now=now] d by simp
    have v1: "votes_of ?db1 (u_id usr) i k = [?ev']" using votes_of_update[OF inv ev] .
    have h1: "held ?db1 (u_id usr) i k = Some d" unfolding held_votes_of v1 by simp
    have sub: "set (map v_id (votes ?db1)) \<subseteq> set (map v_id (votes db))"
      by auto
    show ?thesis
      using castVote_switch[OF auth nonempty ex inv ev False, where env=env and newId=newId and now=now] u h0 h1 v1
        auth ex same_tables[of ?db1 db] False sub
      by (auto simp: Let_def)
  qed
qed

text \<open>
  C1 (amended). For an authenticated voter, an existing target and a direction \<open>d\<close>, on a
  state that satisfies the uniqueness of the votes table and with fresh generated ids:
  with no vote for the triple, castVote inserts a vote with direction \<open>d\<close> and returns
  \<open>d\<close>; with a vote of direction \<open>d\<close>, castVote deletes it and returns a null direction;
  with a vote of the other direction, castVote sets it to \<open>d\<close>, refreshes its timestamp and
  returns \<open>d\<close>. Casting \<open>d\<close> twice in a row leaves no vote when the voter did not hold
  \<open>d\<close> before the first cast. Casting \<open>d\<close> and then a different direction leaves exactly one
  vote, with the second direction.
\<close>

theorem castVote_toggle_switch:
  assumes auth: "getAuthenticatedUser db session = Some usr"
      and nonempty: "i \<noteq> []"
      and ex: "itemExists db i k \<noteq> []"
      and inv: "votes_unique db"
      and fresh: "newId \<notin> set (map v_id (votes db))"
      and fresh2: "newId2 \<notin> set (map v_id (votes db))" "newId2 \<noteq> newId"
  shows
    "(votes_of db (u_id usr) i k = [] \<longrightarrow>
        (let row = \<lparr>v_id = newId, v_userId = u_id usr, v_itemId = i, v_itemType = k,
                      v_voteType = d, v_createdAt = now\<rparr>;
             db1 = db\<lparr>votes := votes db @ [row]\<rparr>
         in POST_votes env newId now db session (vote_request i k d) =
              (ApiSuccess (VoteData (Some row) (getItemVoteCounts db1 i k) (Some d))
                 (Some ''Vote recorded successfully'') None, db1)
            \<and> votes_of db1 (u_id usr) i k = [row]))
   \<and> (\<forall>ev \<in> set (votes_of db (u_id usr) i k). v_voteType ev = d \<longrightarrow>
        (let db1 = db\<lparr>votes := remove1 ev (votes db)\<rparr>
         in POST_votes env newId now db session (vote_request i k d) =
              (ApiSuccess (VoteData None (getItemVoteCounts db1 i k) None)
                 (Some ''Vote removed successfully'') None, db1)
            \<and> votes_of db1 (u_id usr) i k = []))
   \<and> (\<forall>ev \<in> set (votes_of db (u_id usr) i k). v_voteType ev \<noteq> d \<longrightarrow>
        (let ev' = ev\<lparr>v_voteType := d, v_createdAt := now\<rparr>;
             db1 = db\<lparr>votes := map (\<lambda>v. if v = ev then ev' else v) (votes db)\<rparr>
         in POST_votes env newId now db session (vote_request i k d) =
              (ApiSuccess (VoteData (Some ev') (getItemVoteCounts db1 i k) (Some d))
                 (Some ''Vote recorded successfully'') None, db1)
            \<and> votes_of db1 (u_id usr) i k = [ev']))
   \<and> (held db (u_id usr) i k \<noteq> Some d \<longrightarrow>
        votes_of
          (snd (POST_votes env newId2 now2
                  (snd (POST_votes env newId now db session (vote_request i k d)))
                  session (vote_request i k d)))
          (u_id usr) i k = [])
   \<and> (d2 \<noteq> d \<longrightarrow>
        (\<exists>v. votes_of
               (snd (POST_votes env newId2 now2
                       (snd (POST_votes env newId now db session (vote_request i k d)))
                       session (vote_request i k d2)))
               (u_id usr) i k = [v]
             \<and> v_voteType v = d2))"
proof (intro conjI impI ballI)
  assume none: "votes_of db (u_id usr) i k = []"
  show "let row = \<lparr>v_id = newId, v_userId = u_id usr, v_itemId = i, v_itemType = k,
                      v_voteType = d, v_createdAt = now\<rparr>;
             db1 = db\<lparr>votes := votes db @ [row]\<rparr>
         in POST_votes env newId now db session (vote_request i k d) =
              (ApiSuccess (VoteData (Some row) (getItemVoteCounts db1 i k) (Some d))
                 (Some ''Vote recorded successfully'') None, db1)
            \<and> votes_of db1 (u_id usr) i k = [row]"
    using castVote_insert[OF auth nonempty ex none fresh, where env=env and now=now and d=d] votes_of_insert[OF none]
    by (simp add: Let_def)
next
  fix ev assume ev: "ev \<in> set (votes_of db (u_id usr) i k)" and same: "v_voteType ev = d"
  have s: "votes_of db (u_id usr) i k = [ev]" using votes_of_eq_single[OF inv ev] .
  have "delete_vote (v_id ev) db = db\<lparr>votes := remove1 ev (votes db)\<rparr>"
    using delete_vote_remove1[OF inv s] by (simp add: delete_vote_def)
  then have "votes_of (db\<lparr>votes := remove1 ev (votes db)\<rparr>) (u_id usr) i k = []"
    using votes_of_delete[OF inv s] by simp
  then show "let db1 = db\<lparr>votes := remove1 ev (votes db)\<rparr>
         in POST_votes env newId now db session (vote_request i k d) =
              (ApiSuccess (VoteData None (getItemVoteCounts db1 i k) None)
                 (Some ''Vote removed successfully'') None, db1)
            \<and> votes_of db1 (u_id usr) i k = []"
    using castVote_toggle_off[OF auth nonempty ex inv ev same, where env=env and newId=newId and now=now]
    by (simp add: Let_def)
next
  fix ev assume ev: "ev \<in> set (votes_of db (u_id usr) i k)" and diff: "v_voteType ev \<noteq> d"
  show "let ev' = ev\<lparr>v_voteType := d, v_createdAt := now\<rparr>;
             db1 = db\<lparr>votes := map (\<lambda>v. if v = ev then ev' else v) (votes db)\<rparr>
         in POST_votes env newId now db session (vote_request i k d) =
              (ApiSuccess (VoteData (Some ev') (getItemVoteCounts db1 i k) (Some d))
                 (Some ''Vote recorded successfully'') None, db1)
            \<and> votes_of db1 (u_id usr) i k = [ev']"
    using castVote_switch[OF auth nonempty ex inv ev diff, where env=env and newId=newId and now=now]
      votes_of_update[OF inv ev, where d=d and now=now]
    by (simp add: Let_def)
next
  assume nh: "held db (u_id usr) i k \<noteq> Some d"
  obtain r db1 where 1: "POST_votes env newId now db session (vote_request i k d) = (r, db1)"
    and u1: "votes_unique db1" and a1: "getAuthenticatedUser db1 session = Some usr"
    and e1: "itemExists db1 i k \<noteq> []"
    and s1: "set (map v_id (votes db1)) \<subseteq> insert newId (set (map v_id (votes db)))"
    and h1: "held db1 (u_id usr) i k = (if held db (u_id usr) i k = Some d then None else Some d)"
    using castVote_step[OF auth nonempty ex inv fresh, where env=env and now=now and d=d] by blast
  have f2: "newId2 \<notin> set (map v_id (votes db1))" using s1 fresh2 by blast
  obtain r2 db2 where 2: "POST_votes env newId2 now2 db1 session (vote_request i k d) = (r2, db2)"
    and l2: "length (votes_of db2 (u_id usr) i k) = (if held db1 (u_id usr) i k = Some d then 0 else 1)"
    using castVote_step[OF a1 nonempty e1 u1 f2, where env=env and now=now2 and d=d] by blast
  show "votes_of
          (snd (POST_votes env newId2 now2
                  (snd (POST_votes env newId now db session (vote_request i k d)))
                  session (vote_request i k d)))
          (u_id usr) i k = []"
    using 1 2 l2 h1 nh by simp
next
  assume ne: "d2 \<noteq> d"
  obtain r db1 where 1: "POST_votes env newId now db session (vote_request i k d) = (r, db1)"
    and u1: "votes_unique db1" and a1: "getAuthenticatedUser db1 session = Some usr"
    and e1: "itemExists db1 i k \<noteq> []"
    and s1: "set (map v_id (votes db1)) \<subseteq> insert newId (set (map v_id (votes db)))"
    and h1: "held db1 (u_id usr) i k = (if held db (u_id usr) i k = Some d then None else Some d)"
    using castVote_step[OF auth nonempty ex inv fresh, where env=env and now=now and d=d] by blast
  have f2: "newId2 \<notin> set (map v_id (votes db1))" using s1 fresh2 by blast
  obtain r2 db2 where 2: "POST_votes env newId2 now2 db1 session (vote_request i k d2) = (r2, db2)"
    and h2: "held db2 (u_id usr) i k = (if held db1 (u_id usr) i k = Some d2 then None else Some d2)"
    and l2: "length (votes_of db2 (u_id usr) i k) = (if held db1 (u_id usr) i k = Some d2 then 0 else 1)"
    using castVote_step[OF a1 nonempty e1 u1 f2, where env=env and now=now2 and d=d2] by blast
  have nh: "held db1 (u_id usr) i k \<noteq> Some d2" using h1 ne by (auto split: if_splits)
  then have "length (votes_of db2 (u_id usr) i k) = 1" and "held db2 (u_id usr) i k = Some d2"
    using l2 h2 by simp_all
  then obtain v where "votes_of db2 (u_id usr) i k = [v]" and "v_voteType v = d2"
    by (auto simp: held_votes_of length_Suc_conv split: list.splits)
  then show "\<exists>v. votes_of
               (snd (POST_votes env newId2 now2
                       (snd (POST_votes env newId now db session (vote_request i k d)))
                       session (vote_request i k d2)))
               (u_id usr) i k = [v]
             \<and> v_voteType v = d2"
    using 1 2 by simp
qed

section \<open>Concrete runs of the ledger\<close>

lemmas eval_defs = example_db_def example_env_def POST_votes_def DELETE_votes_def requireAuth_def
  getAuthenticatedUser_def validateRequestBody_def createVoteSchema_def vote_request_def
  parse_itemType_def parse_voteType_def itemExists_def existingVote_def delete_vote_def
  update_vote_def insert_vote_def vote_key_def createSuccessResponse_def createErrorResponse_def
  handleApiError_def getItemVoteCounts_def sql_count_def votes_of_def votes_unique_def Let_def
  held_def getUserVote_def

theorem removeVote_absent_is_error_witness:
  "getAuthenticatedUser example_db (Some ''u2'') =
     Some \<lparr>u_id = ''u2'', u_name = ''Bob'', u_email = ''bob@example.com'', u_image = None\<rparr>
   \<and> itemExists example_db ''q1'' Question \<noteq> []
   \<and> votes_unique example_db
   \<and> votes_of example_db ''u2'' ''q1'' Question = []
   \<and> DELETE_votes example_db (Some ''u2'') (Some ''q1'') (Some ''question'') =
       (ApiError 404 ''No vote found for this item'', example_db)
   \<and> (\<exists>ev. ev \<in> set (votes_of example_db ''u1'' ''q1'' Question))
   \<and> (\<exists>db'. fst (DELETE_votes example_db (Some ''u1'') (Some ''q1'') (Some ''question'')) =
         ApiSuccess (RemoveData (getItemVoteCounts db' ''q1'' Question) None)
           (Some ''Vote removed successfully'') None
       \<and> votes_of db' ''u1'' ''q1'' Question = [])"
proof -
  let ?bob = "\<lparr>u_id = ''u2'', u_name = ''Bob'', u_email = ''bob@example.com'', u_image = None\<rparr>"
  let ?alice = "\<lparr>u_id = ''u1'', u_name = ''Alice'', u_email = ''alice@example.com'',
                  u_image = None\<rparr>"
  let ?v1 = "\<lparr>v_id = ''v1'', v_userId = ''u1'', v_itemId = ''q1'', v_itemType = Question,
               v_voteType = Upvote, v_createdAt = 2\<rparr>"
  have b: "getAuthenticatedUser example_db (Some ''u2'') = Some ?bob"
    by (simp add: eval_defs)
  have a: "getAuthenticatedUser example_db (Some ''u1'') = Some ?alice"
    by (simp add: eval_defs)
  have n: "''q1'' \<noteq> []" by simp
  have e: "itemExists example_db ''q1'' Question \<noteq> []" by (simp add: eval_defs)
  have u: "votes_unique example_db" by (simp add: eval_defs)
  have none: "votes_of example_db (u_id ?bob) ''q1'' Question = []" by (simp add: eval_defs)
  have some: "?v1 \<in> set (votes_of example_db (u_id ?alice) ''q1'' Question)"
    by (simp add: eval_defs)
  have 1: "DELETE_votes example_db (Some ''u2'') (Some ''q1'') (Some ''question'') =
       (ApiError 404 ''No vote found for this item'', example_db)"
    using removeVote_absent_is_error[OF b n e u, THEN conjunct1, THEN mp, OF none] by simp
  have 2: "\<exists>db'. fst (DELETE_votes example_db (Some ''u1'') (Some ''q1'') (Some ''question'')) =
         ApiSuccess (RemoveData (getItemVoteCounts db' ''q1'' Question) None)
           (Some ''Vote removed successfully'') None
       \<and> votes_of db' ''u1'' ''q1'' Question = []"
    using removeVote_absent_is_error[OF a n e u, THEN conjunct2, THEN spec, THEN mp, OF some]
    by auto
  have 3: "\<exists>ev. ev \<in> set (votes_of example_db ''u1'' ''q1'' Question)"
    using some by auto
  have 4: "votes_of example_db ''u2'' ''q1'' Question = []" using none by simp
  from b e u 4 1 3 2 show ?thesis by (intro conjI)
qed

text \<open>
  C2. From a state in which no two vote rows share an id or a (voter, target, kind) triple,
  every sequence of castVote and removeVote requests, whatever their inputs, leads to a
  state with the same property: at most one vote row per triple. The store itself keeps
  it: an insert of a row whose triple is already present is rejected, and an insert that
  succeeds preserves the property.
\<close>

theorem vote_uniqueness_invariant:
  assumes "votes_unique db"
  shows "votes_unique (run_vote_ops env db ops)
     \<and> (\<forall>u i k. length (votes_of (run_vote_ops env db ops) u i k) \<le> 1)
     \<and> (\<forall>r. (\<exists>v \<in> set (votes (run_vote_ops env db ops)). vote_key v = vote_key r) \<longrightarrow>
              (\<exists>e. insert_vote r (run_vote_ops env db ops) = Inl e))
     \<and> (\<forall>r db'. insert_vote r (run_vote_ops env db ops) = Inr db' \<longrightarrow> votes_unique db')"
proof -
  have u: "votes_unique (run_vote_ops env db ops)"
    using run_vote_ops_unique[OF assms] .
  have "\<forall>r. (\<exists>v \<in> set (votes (run_vote_ops env db ops)). vote_key v = vote_key r) \<longrightarrow>
              (\<exists>e. insert_vote r (run_vote_ops env db ops) = Inl e)"
    by (auto simp: insert_vote_def image_iff)
  then show ?thesis
    using u votes_of_le1[OF u] votes_unique_insert[OF u] by blast
qed

theorem vote_uniqueness_invariant_witness:
  "votes_unique example_db
   \<and> votes_unique
        (run_vote_ops example_env example_db
           [CastVote ''v2'' 3 (Some ''u2'') (vote_request ''q1'' Question Downvote),
            CastVote ''v1'' 4 (Some ''u2'') (vote_request ''q1'' Question Upvote),
            RemoveVote (Some ''u1'') (Some ''q1'') (Some ''question''),
            CastVote ''v2'' 5 (Some ''u1'') (vote_request ''q1'' Question Upvote)])
   \<and> length (votes_of
        (run_vote_ops example_env example_db
           [CastVote ''v2'' 3 (Some ''u2'') (vote_request ''q1'' Question Downvote),
            CastVote ''v1'' 4 (Some ''u2'') (vote_request ''q1'' Question Upvote),
            RemoveVote (Some ''u1'') (Some ''q1'') (Some ''question''),
            CastVote ''v2'' 5 (Some ''u1'') (vote_request ''q1'' Question Upvote)])
        ''u2'' ''q1'' Question) \<le> 1"
proof -
  have u: "votes_unique example_db" by (simp add: eval_defs)
  note t = vote_uniqueness_invariant[OF u, where env = example_env]
  from t[THEN conjunct1] t[THEN conjunct2, THEN conjunct1, THEN spec, THEN spec, THEN spec] u
  show ?thesis by (intro conjI) assumption+
qed

theorem castVote_toggle_switch_witness:
  "getAuthenticatedUser example_db (Some ''u1'') =
     Some \<lparr>u_id = ''u1'', u_name = ''Alice'', u_email = ''alice@example.com'', u_image = None\<rparr>
   \<and> itemExists example_db ''q1'' Question \<noteq> []
   \<and> votes_unique example_db
   \<and> ''v2'' \<notin> set (map v_id (votes example_db))
   \<and> ''v3'' \<notin> set (map v_id (votes example_db))
   \<and> held example_db ''u1'' ''q1'' Question \<noteq> Some Downvote
   \<and> fst (POST_votes example_env ''v2'' 3 example_db (Some ''u1'')
             (vote_request ''q1'' Question Downvote)) =
       ApiSuccess
         (VoteData
            (Some \<lparr>v_id = ''v1'', v_userId = ''u1'', v_itemId = ''q1'', v_itemType = Question,
                    v_voteType = Downvote, v_createdAt = 3\<rparr>)
            \<lparr>upvotes = 0, downvotes = 1, total = - 1\<rparr> (Some Downvote))
         (Some ''Vote recorded successfully'') None
   \<and> votes_of
        (snd (POST_votes example_env ''v3'' 4
                (snd (POST_votes example_env ''v2'' 3 example_db (Some ''u1'')
                        (vote_request ''q1'' Question Downvote)))
                (Some ''u1'') (vote_request ''q1'' Question Downvote)))
        ''u1'' ''q1'' Question = []
   \<and> (\<exists>v. votes_of
        (snd (POST_votes example_env ''v3'' 4
                (snd (POST_votes example_env ''v2'' 3 example_db (Some ''u1'')
                        (vote_request ''q1'' Question Downvote)))
                (Some ''u1'') (vote_request ''q1'' Question Upvote)))
        ''u1'' ''q1'' Question = [v] \<and> v_voteType v = Upvote)"
proof -
  let ?alice = "\<lparr>u_id = ''u1'', u_name = ''Alice'', u_email = ''alice@example.com'',
                  u_image = None\<rparr>"
  let ?v1 = "\<lparr>v_id = ''v1'', v_userId = ''u1'', v_itemId = ''q1'', v_itemType = Question,
               v_voteType = Upvote, v_createdAt = 2\<rparr>"
  have a: "getAuthenticatedUser example_db (Some ''u1'') = Some ?alice"
    by (simp add: eval_defs)
  have n: "''q1'' \<noteq> []" by simp
  have e: "itemExists example_db ''q1'' Question \<noteq> []" by (simp add: eval_defs)
  have u: "votes_unique example_db" by (simp add: eval_defs)
  have f1: "''v2'' \<notin> set (map v_id (votes example_db))" by (simp add: eval_defs)
  have f2: "''v3'' \<notin> set (map v_id (votes example_db))" by (simp add: eval_defs)
  have f3: "''v3'' \<noteq> ''v2''" by simp
  have h: "held example_db (u_id ?alice) ''q1'' Question \<noteq> Some Downvote"
    by (simp add: eval_defs)
  have v: "?v1 \<in> set (votes_of example_db (u_id ?alice) ''q1'' Question)"
    by (simp add: eval_defs)
  have d: "v_voteType ?v1 \<noteq> Downvote" by simp
  note t = castVote_toggle_switch[OF a n e u f1 f2 f3, where env = example_env and now = 3
      and ?now2.0 = 4 and d = Downvote and ?d2.0 = Upvote]
  have 1: "fst (POST_votes example_env ''v2'' 3 example_db (Some ''u1'')
             (vote_request ''q1'' Question Downvote)) =
       ApiSuccess
         (VoteData
            (Some \<lparr>v_id = ''v1'', v_userId = ''u1'', v_itemId = ''q1'', v_itemType = Question,
                    v_voteType = Downvote, v_createdAt = 3\<rparr>)
            \<lparr>upvotes = 0, downvotes = 1, total = - 1\<rparr> (Some Downvote))
         (Some ''Vote recorded successfully'') None"
    using t[THEN conjunct2, THEN conjunct2, THEN conjunct1, THEN bspec, OF v, THEN mp, OF d]
    by (simp add: Let_def getItemVoteCounts_def sql_count_def example_db_def)
  have 2: "votes_of
        (snd (POST_votes example_env ''v3'' 4
                (snd (POST_votes example_env ''v2'' 3 example_db (Some ''u1'')
                        (vote_request ''q1'' Question Downvote)))
                (Some ''u1'') (vote_request ''q1'' Question Downvote)))
        ''u1'' ''q1'' Question = []"
    using t[THEN conjunct2, THEN conjunct2, THEN conjunct2, THEN conjunct1, THEN mp, OF h]
    by simp
  have 3: "\<exists>v. votes_of
        (snd (POST_votes example_env ''v3'' 4
                (snd (POST_votes example_env ''v2'' 3 example_db (Some ''u1'')
                        (vote_request ''q1'' Question Downvote)))
                (Some ''u1'') (vote_request ''q1'' Question Upvote)))
        ''u1'' ''q1'' Question = [v] \<and> v_voteType v = Upvote"
    using t[THEN conjunct2, THEN conjunct2, THEN conjunct2, THEN conjunct2, THEN mp] by simp
  have h': "held example_db ''u1'' ''q1'' Question \<noteq> Some Downvote" using h by simp
  from a e u f1 f2 h' 1 2 3 show ?thesis by (intro conjI)
qed

text \<open>
  The claim as written fails when the voter already holds the direction: Alice holds an
  upvote on the question; casting upvote twice removes it and then creates it again.
\<close>

theorem castVote_same_twice_counterexample:
  "getAuthenticatedUser example_db (Some ''u1'') \<noteq> None
   \<and> itemExists example_db ''q1'' Question \<noteq> []
   \<and> votes_of
        (snd (POST_votes example_env ''v3'' 4
                (snd (POST_votes example_env ''v2'' 3 example_db (Some ''u1'')
                        (vote_request ''q1'' Question Upvote)))
                (Some ''u1'') (vote_request ''q1'' Question Upvote)))
        ''u1'' ''q1'' Question
      = [\<lparr>v_id = ''v3'', v_userId = ''u1'', v_itemId = ''q1'', v_itemType = Question,
           v_voteType = Upvote, v_createdAt = 4\<rparr>]"
  by (simp add: eval_defs)

section \<open>Slug normalisation\<close>

















section \<open>Topic creation and error handling\<close>

lemma handleApiError_status:
  "http_status (snd (handleApiError e)) \<in> {401, 403, 404, 500}"
  by (cases e) (simp_all add: handleApiError_def createErrorResponse_def)

lemma handleApiError_is_error:
  "\<exists>st msg. snd (handleApiError e) = ApiError st msg \<and> st \<in> {401, 403, 404, 500}"
  by (cases e) (simp_all add: handleApiError_def createErrorResponse_def)

lemma insert_topic_error_status:
  "insert_topic r db = Inl e \<Longrightarrow> http_status (snd (handleApiError e)) = 500"
  by (auto simp: insert_topic_def handleApiError_def createErrorResponse_def split: if_splits)

text \<open>
  What \<open>POST /api/topics\<close> does with a body that passes validation: the result does not
  depend on the session, the status is never 401, an existing name or slug gives 409 with
  nothing written, and otherwise, with a fresh generated id, the topic is created.
\<close>

lemma POST_topics_valid_body:
  assumes valid: "createTopicSchema env raw = Inr body"
  shows "POST_topics env newId db session raw = POST_topics env newId db None raw
     \<and> http_status (fst (POST_topics env newId db session raw)) \<noteq> 401
     \<and> ((\<exists>t \<in> set (topics db). t_name t = tb_name body \<or> t_slug t = tb_slug body) \<longrightarrow>
          POST_topics env newId db session raw =
            (ApiError 409 ''Topic with this name or slug already exists'', db))
     \<and> ((\<forall>t \<in> set (topics db). t_name t \<noteq> tb_name body \<and> t_slug t \<noteq> tb_slug body)
          \<and> newId \<notin> set (map t_id (topics db)) \<longrightarrow>
          (let newTopic = \<lparr>t_id = newId, t_name = tb_name body, t_slug = tb_slug body,
                           t_description =
                             (case tb_description body of
                                None \<Rightarrow> None
                              | Some d \<Rightarrow> if d = [] then None else Some d)\<rparr>
           in POST_topics env newId db session raw =
                (ApiSuccess (TopicData newTopic) (Some ''Topic created successfully'') None,
                 db\<lparr>topics := topics db @ [newTopic]\<rparr>)))"
proof (intro conjI impI)
  show "POST_topics env newId db session raw = POST_topics env newId db None raw"
    by (simp add: POST_topics_def)
next
  let ?ex = "filter (\<lambda>t. t_name t = tb_name body \<or> t_slug t = tb_slug body) (topics db)"
  show "http_status (fst (POST_topics env newId db session raw)) \<noteq> 401"
  proof (cases "?ex = []")
    case False
    then show ?thesis
      by (simp add: POST_topics_def validateRequestBody_def valid createErrorResponse_def Let_def)
  next
    case True
    then show ?thesis
      by (auto simp: POST_topics_def validateRequestBody_def valid Let_def
          createSuccessResponse_def split: sum.splits dest: insert_topic_error_status)
  qed
next
  assume "\<exists>t \<in> set (topics db). t_name t = tb_name body \<or> t_slug t = tb_slug body"
  then have "filter (\<lambda>t. t_name t = tb_name body \<or> t_slug t = tb_slug body) (topics db) \<noteq> []"
    by (simp add: filter_empty_conv)
  then show "POST_topics env newId db session raw =
            (ApiError 409 ''Topic with this name or slug already exists'', db)"
    by (simp add: POST_topics_def validateRequestBody_def valid createErrorResponse_def Let_def)
next
  assume a: "(\<forall>t \<in> set (topics db). t_name t \<noteq> tb_name body \<and> t_slug t \<noteq> tb_slug body)
          \<and> newId \<notin> set (map t_id (topics db))"
  then have e: "filter (\<lambda>t. t_name t = tb_name body \<or> t_slug t = tb_slug body) (topics db) = []"
    by (auto simp: filter_empty_conv)
  have n: "tb_name body \<notin> set (map t_name (topics db))"
    and s: "tb_slug body \<notin> set (map t_slug (topics db))"
    using a by auto
  show "let newTopic = \<lparr>t_id = newId, t_name = tb_name body, t_slug = tb_slug body,
                           t_description =
                             (case tb_description body of
                                None \<Rightarrow> None
                              | Some d \<Rightarrow> if d = [] then None else Some d)\<rparr>
           in POST_topics env newId db session raw =
                (ApiSuccess (TopicData newTopic) (Some ''Topic created successfully'') None,
                 db\<lparr>topics := topics db @ [newTopic]\<rparr>)"
    using a n s
    by (simp add: POST_topics_def validateRequestBody_def valid Let_def e insert_topic_def
        createSuccessResponse_def)
qed

lemma POST_topics_invalid_body:
  assumes "createTopicSchema env raw = Inl issues"
  shows "POST_topics env newId db session raw =
           (snd (handleApiError (JsError (zod_message env issues))), db)"
  using assms by (simp add: POST_topics_def validateRequestBody_def)

text \<open>
  C10 (the code at the failing input). A body without \<open>name\<close>, and a body whose \<open>name\<close> is
  the empty string, fail validation. The handler answers them through \<open>handleApiError\<close>,
  whose statuses are 401, 403, 404 and 500, never 400, and writes nothing; with the
  example message the status is 500.
\<close>

theorem malformed_topic_body_not_400:
  "http_status (fst (POST_topics env newId db session
      \<lparr>raw_name = TUndefined, raw_slug = TString (utf16 ''tech''),
       raw_description = TUndefined\<rparr>)) \<in> {401, 403, 404, 500}
   \<and> snd (POST_topics env newId db session
      \<lparr>raw_name = TUndefined, raw_slug = TString (utf16 ''tech''),
       raw_description = TUndefined\<rparr>) = db
   \<and> http_status (fst (POST_topics env newId db session
      \<lparr>raw_name = TString [], raw_slug = TString (utf16 ''tech''),
       raw_description = TUndefined\<rparr>)) \<in> {401, 403, 404, 500}
   \<and> POST_topics example_env ''topic-2'' example_db None
      \<lparr>raw_name = TUndefined, raw_slug = TString (utf16 ''tech''),
       raw_description = TUndefined\<rparr> = (ApiError 500 ''[validation issues]'', example_db)
   \<and> POST_topics example_env ''topic-2'' example_db None
      \<lparr>raw_name = TString [], raw_slug = TString (utf16 ''tech''),
       raw_description = TUndefined\<rparr> = (ApiError 500 ''[validation issues]'', example_db)"
proof -
  let ?r1 = "\<lparr>raw_name = TUndefined, raw_slug = TString (utf16 ''tech''),
              raw_description = TUndefined\<rparr>"
  let ?r2 = "\<lparr>raw_name = TString [], raw_slug = TString (utf16 ''tech''),
              raw_description = TUndefined\<rparr>"
  have i1: "\<And>e. createTopicSchema e ?r1 = Inl [ZodIssue ''invalid_type'' ''name'']"
    by (simp add: createTopicSchema_def string_issues_def utf16_def)
  have i2: "\<And>e. createTopicSchema e ?r2 = Inl [ZodIssue ''too_small'' ''name'']"
    by (simp add: createTopicSchema_def string_issues_def utf16_def)
  have c: "snd (handleApiError (JsError (zod_message example_env is))) =
             ApiError 500 ''[validation issues]''" for "is"
    by (simp add: example_env_def handleApiError_def createErrorResponse_def)
  show ?thesis
    using handleApiError_status
    by (simp add: POST_topics_invalid_body[OF i1] POST_topics_invalid_body[OF i2] c)
qed

text \<open>
  C8 (the code at the failing input). An exception that \<open>handleApiError\<close> does not classify,
  here a failed database connection, is logged, and its message is also the \<open>error\<close> text of
  the HTTP 500 response.
\<close>

theorem handleApiError_leaks_message:
  "handleApiError (JsError ''connect ECONNREFUSED 10.0.0.5:5432'') =
     ([LogUnhandled (JsError ''connect ECONNREFUSED 10.0.0.5:5432''),
       LogApiError ''connect ECONNREFUSED 10.0.0.5:5432''],
      ApiError 500 ''connect ECONNREFUSED 10.0.0.5:5432'')"
  by (simp add: handleApiError_def createErrorResponse_def)

section \<open>Question listing\<close>

lemmas listing_defs = GET_questions_def questionsQuerySchema_def coerce_number_def
  number_issues_def is_integer_def parse_sort_def listQuestions_def table_as_def
  example_env_def decimal_Number_def handleApiError_def createErrorResponse_def Let_def

lemma absent_limit_issue:
  "\<exists>issues. questionsQuerySchema env
      \<lparr>rq_page = p, rq_limit = None, rq_sort = s, rq_topic = t\<rparr> = Inl issues"
  by (simp add: questionsQuerySchema_def coerce_number_def number_issues_def is_integer_def
      Let_def split: js_number.splits option.splits)

text \<open>
  C5 (the code at the failing input). A listing request without \<open>limit\<close> is not given the
  default 20: \<open>searchParams.get\<close> yields \<open>null\<close>, which is coerced to 0 and rejected, and the
  rejection goes through \<open>handleApiError\<close>, whose statuses are 401, 403, 404 and 500, never
  400. A limit of 51 and a page of 0 are rejected with status 500 as well.
\<close>

theorem absent_limit_not_defaulted:
  "http_status (GET_questions env db
      \<lparr>rq_page = Some ''1'', rq_limit = None, rq_sort = Some ''recent'',
       rq_topic = Some ''technology''\<rparr>) \<in> {401, 403, 404, 500}
   \<and> GET_questions example_env example_db
      \<lparr>rq_page = Some ''1'', rq_limit = None, rq_sort = Some ''recent'',
       rq_topic = Some ''technology''\<rparr> = ApiError 500 ''[validation issues]''
   \<and> GET_questions example_env example_db
      \<lparr>rq_page = Some ''1'', rq_limit = Some ''51'', rq_sort = Some ''recent'',
       rq_topic = Some ''technology''\<rparr> = ApiError 500 ''[validation issues]''
   \<and> GET_questions example_env example_db
      \<lparr>rq_page = Some ''0'', rq_limit = Some ''20'', rq_sort = Some ''recent'',
       rq_topic = Some ''technology''\<rparr> = ApiError 500 ''[validation issues]''"
proof (intro conjI)
  show "GET_questions example_env example_db
      \<lparr>rq_page = Some ''1'', rq_limit = Some ''51'', rq_sort = Some ''recent'',
       rq_topic = Some ''technology''\<rparr> = ApiError 500 ''[validation issues]''"
    by (simp add: listing_defs)
  show "GET_questions example_env example_db
      \<lparr>rq_page = Some ''0'', rq_limit = Some ''20'', rq_sort = Some ''recent'',
       rq_topic = Some ''technology''\<rparr> = ApiError 500 ''[validation issues]''"
    by (simp add: listing_defs)
next
  obtain issues where "questionsQuerySchema env
      \<lparr>rq_page = Some ''1'', rq_limit = None, rq_sort = Some ''recent'',
       rq_topic = Some ''technology''\<rparr> = Inl issues"
    using absent_limit_issue by blast
  then show "http_status (GET_questions env db
      \<lparr>rq_page = Some ''1'', rq_limit = None, rq_sort = Some ''recent'',
       rq_topic = Some ''technology''\<rparr>) \<in> {401, 403, 404, 500}"
    using handleApiError_status by (simp add: GET_questions_def)
next
  obtain issues where "questionsQuerySchema example_env
      \<lparr>rq_page = Some ''1'', rq_limit = None, rq_sort = Some ''recent'',
       rq_topic = Some ''technology''\<rparr> = Inl issues"
    using absent_limit_issue by blast
  then show "GET_questions example_env example_db
      \<lparr>rq_page = Some ''1'', rq_limit = None, rq_sort = Some ''recent'',
       rq_topic = Some ''technology''\<rparr> = ApiError 500 ''[validation issues]''"
    by (simp add: GET_questions_def example_env_def handleApiError_def createErrorResponse_def)
qed

lemma GET_questions_never_succeeds:
  "\<exists>st msg. GET_questions env db raw = ApiError st msg \<and> st \<in> {401, 403, 404, 500}"
  using handleApiError_is_error
  by (simp add: GET_questions_def listQuestions_def split: sum.splits)

text \<open>
  C6 (the code at the failing input). The request filters by the slug of the topic the
  question is tagged with and passes validation. The handler fails while it builds the
  query and answers 500 with the text of the \<open>TypeError\<close>; no page and no total are
  produced. The same holds for every query that passes validation.
\<close>

theorem topic_filter_request_fails:
  "questionsQuerySchema example_env
      \<lparr>rq_page = Some ''1'', rq_limit = Some ''20'', rq_sort = Some ''recent'',
       rq_topic = Some ''technology''\<rparr> =
     Inr \<lparr>qq_page = 1, qq_limit = 20, qq_sort = Recent, qq_topic = Some ''technology''\<rparr>
   \<and> GET_questions example_env example_db
      \<lparr>rq_page = Some ''1'', rq_limit = Some ''20'', rq_sort = Some ''recent'',
       rq_topic = Some ''technology''\<rparr> = ApiError 500 ''votes.as is not a function''
   \<and> http_status (listQuestions env db
         \<lparr>qq_page = 1, qq_limit = 20, qq_sort = Recent, qq_topic = Some ''technology''\<rparr>)
       \<in> {401, 403, 404, 500}"
proof (intro conjI)
  show "questionsQuerySchema example_env
      \<lparr>rq_page = Some ''1'', rq_limit = Some ''20'', rq_sort = Some ''recent'',
       rq_topic = Some ''technology''\<rparr> =
     Inr \<lparr>qq_page = 1, qq_limit = 20, qq_sort = Recent, qq_topic = Some ''technology''\<rparr>"
    by (simp add: listing_defs)
  show "GET_questions example_env example_db
      \<lparr>rq_page = Some ''1'', rq_limit = Some ''20'', rq_sort = Some ''recent'',
       rq_topic = Some ''technology''\<rparr> = ApiError 500 ''votes.as is not a function''"
    by (simp add: listing_defs)
  show "http_status (listQuestions env db
         \<lparr>qq_page = 1, qq_limit = 20, qq_sort = Recent, qq_topic = Some ''technology''\<rparr>)
       \<in> {401, 403, 404, 500}"
    using handleApiError_status by (simp add: listQuestions_def)
qed

lemma Math_ceil_div_least:
  assumes "0 < l"
  shows "t \<le> Math_ceil_div t l * l \<and> (Math_ceil_div t l - 1) * l < t"
proof -
  have r: "((of_int t :: rat) / of_int l) * of_int l = of_int t" using assms by simp
  have lpos: "(0::rat) < of_int l" using assms by simp
  have "(of_int t :: rat) / of_int l \<le> of_int (Math_ceil_div t l)"
    by (simp add: Math_ceil_div_def)
  then have "((of_int t :: rat) / of_int l) * of_int l \<le> of_int (Math_ceil_div t l) * of_int l"
    using lpos by (rule mult_right_mono[OF _ less_imp_le])
  then have 1: "t \<le> Math_ceil_div t l * l"
    unfolding r by (metis of_int_le_iff of_int_mult)
  have "of_int (Math_ceil_div t l) - 1 < (of_int t :: rat) / of_int l"
    unfolding Math_ceil_div_def by linarith
  then have "(of_int (Math_ceil_div t l) - 1) * of_int l < ((of_int t :: rat) / of_int l) * of_int l"
    using lpos by (rule mult_strict_right_mono)
  then have "(of_int ((Math_ceil_div t l - 1) * l) :: rat) < of_int t"
    unfolding r by simp
  then have 2: "(Math_ceil_div t l - 1) * l < t" by (simp only: of_int_less_iff)
  from 1 2 show ?thesis ..
qed

lemma Math_ceil_div_eq: "Math_ceil_div a b = - ((- a) div b)"
proof -
  have "\<lceil>(of_int a :: rat) / of_int b\<rceil> = - \<lfloor>- ((of_int a :: rat) / of_int b)\<rfloor>"
    by (simp add: ceiling_def)
  also have "- ((of_int a :: rat) / of_int b) = of_int (- a) / of_int b" by simp
  also have "\<lfloor>(of_int (- a) :: rat) / of_int b\<rfloor> = (- a) div b"
    by (rule floor_divide_of_int_eq)
  finally show ?thesis by (simp add: Math_ceil_div_def)
qed

text \<open>
  C7 (the code at the failing input). The database holds one question, so with limit 20
  there is at most one page; the request for page 2 passes validation. The handler fails
  while it builds the query and answers 500 with the text of the \<open>TypeError\<close> instead of an
  empty page with success status.
\<close>

theorem page_beyond_last_is_error:
  "Math_ceil_div (int (length (questions example_db))) 20 = 1
   \<and> questionsQuerySchema example_env
      \<lparr>rq_page = Some ''2'', rq_limit = Some ''20'', rq_sort = Some ''recent'',
       rq_topic = Some ''technology''\<rparr> =
     Inr \<lparr>qq_page = 2, qq_limit = 20, qq_sort = Recent, qq_topic = Some ''technology''\<rparr>
   \<and> GET_questions example_env example_db
      \<lparr>rq_page = Some ''2'', rq_limit = Some ''20'', rq_sort = Some ''recent'',
       rq_topic = Some ''technology''\<rparr> = ApiError 500 ''votes.as is not a function''
   \<and> http_status (listQuestions env db
         \<lparr>qq_page = 2, qq_limit = 20, qq_sort = Recent, qq_topic = Some ''technology''\<rparr>)
       \<noteq> 200"
proof (intro conjI)
  show "Math_ceil_div (int (length (questions example_db))) 20 = 1"
    by (simp add: Math_ceil_div_eq example_db_def)
  show "questionsQuerySchema example_env
      \<lparr>rq_page = Some ''2'', rq_limit = Some ''20'', rq_sort = Some ''recent'',
       rq_topic = Some ''technology''\<rparr> =
     Inr \<lparr>qq_page = 2, qq_limit = 20, qq_sort = Recent, qq_topic = Some ''technology''\<rparr>"
    by (simp add: listing_defs)
  show "GET_questions example_env example_db
      \<lparr>rq_page = Some ''2'', rq_limit = Some ''20'', rq_sort = Some ''recent'',
       rq_topic = Some ''technology''\<rparr> = ApiError 500 ''votes.as is not a function''"
    by (simp add: listing_defs)
  show "http_status (listQuestions env db
         \<lparr>qq_page = 2, qq_limit = 20, qq_sort = Recent, qq_topic = Some ''technology''\<rparr>)
       \<noteq> 200"
    using handleApiError_status[of "table_as env ''votes''"] by (auto simp: listQuestions_def)
qed

end
